theory Spec2Isabelle
  imports Main "HOL-Library.Sublist"
begin

section \<open>The SMTP transaction client (package nvsmtp, function SendMail)\<close>

text \<open>
  Go errors are values: an \<open>error\<close> is its message, \<open>None\<close> is \<open>nil\<close>.
  A byte slice is a list of characters (an Isabelle \<open>char\<close> is a byte).
\<close>

type_synonym error = string
type_synonym bytes = string

text \<open>The fields of \<open>tls.Config\<close> that SendMail sets.\<close>

record tls_config =
  ServerName :: string
  InsecureSkipVerify :: bool

text \<open>
  The operations SendMail invokes on the network through \<open>net/smtp\<close>: \<open>smtp.Dial\<close>, the
  methods of \<open>*smtp.Client\<close> (Hello, StartTLS, Auth, Mail, Rcpt, Data, Quit, Close) and
  the two methods of the writer that \<open>Data\<close> returns (Write, Close). The type \<open>'a\<close> is
  \<open>smtp.Auth\<close>, an interface the function only passes on.
\<close>

datatype 'a smtp_call =
    Dial string
  | Hello string
  | StartTLS tls_config
  | Auth 'a
  | Mail string
  | Rcpt string
  | Data
  | Write bytes
  | CloseWriter
  | Quit
  | Close

text \<open>
  The library and the server behind it are not part of the repository; they are a
  parameter. \<open>reply\<close> gives the error (or \<open>nil\<close>) that an operation returns after the
  operations made so far, \<open>Extension\<close> what \<open>c.Extension\<close> answers at that point (the
  server's capabilities may change, for instance after STARTTLS). \<open>SplitHostPort\<close> is
  the host that \<open>net.SplitHostPort\<close> returns and \<open>Hostname\<close> the result of
  \<open>os.Hostname\<close>; SendMail ignores the error of both.
\<close>

record 'a smtp_env =
  SplitHostPort :: "string \<Rightarrow> string"
  Hostname :: string
  reply :: "'a smtp_call list \<Rightarrow> 'a smtp_call \<Rightarrow> error option"
  Extension :: "'a smtp_call list \<Rightarrow> string \<Rightarrow> bool"

text \<open>
  One operation: its error, and the log of operations extended by it. The log is the
  observable network activity of a run.
\<close>

definition exec :: "'a smtp_env \<Rightarrow> 'a smtp_call \<Rightarrow> 'a smtp_call list
    \<Rightarrow> error option \<times> 'a smtp_call list" where
  "exec env c tr = (reply env tr c, tr @ [c])"

text \<open>\<open>strings.ContainsAny(line, "\n\r")\<close>: both are ASCII, so the test is on bytes.\<close>

definition ContainsAny :: "string \<Rightarrow> string \<Rightarrow> bool" where
  "ContainsAny s chars = (\<exists>c \<in> set s. c \<in> set chars)"

definition validateLine :: "string \<Rightarrow> error option" where
  "validateLine line =
     (if ContainsAny line [CHR 0x0A, CHR 0x0D]
      then Some ''smtp: A line must not contain CR or LF''
      else None)"

text \<open>The loop of lines 19 to 23: the first recipient that fails validation returns.\<close>

fun validateRecipients :: "string list \<Rightarrow> error option" where
  "validateRecipients [] = None"
| "validateRecipients (recp # rest) =
     (case validateLine recp of
        Some e \<Rightarrow> Some e
      | None \<Rightarrow> validateRecipients rest)"

text \<open>The loop of lines 52 to 56: the first RCPT that fails returns its error.\<close>

fun rcptLoop :: "'a smtp_env \<Rightarrow> string list \<Rightarrow> 'a smtp_call list
    \<Rightarrow> error option \<times> 'a smtp_call list" where
  "rcptLoop env [] tr = (None, tr)"
| "rcptLoop env (addr # rest) tr =
     (case exec env (Rcpt addr) tr of
        (Some e, tr') \<Rightarrow> (Some e, tr')
      | (None, tr') \<Rightarrow> rcptLoop env rest tr')"

text \<open>
  Lines 32 to 40: the opportunistic upgrade. \<open>InsecureSkipVerify\<close> is set, the server
  name is the host part of the address.
\<close>

definition upgradeTLS :: "'a smtp_env \<Rightarrow> string \<Rightarrow> 'a smtp_call list
    \<Rightarrow> error option \<times> 'a smtp_call list" where
  "upgradeTLS env serverName tr =
     (if Extension env tr ''STARTTLS''
      then exec env (StartTLS \<lparr>ServerName = serverName, InsecureSkipVerify = True\<rparr>) tr
      else (None, tr))"

text \<open>Lines 41 to 48: authentication, when an \<open>smtp.Auth\<close> was passed (\<open>a != nil\<close>).\<close>

definition authenticate :: "'a smtp_env \<Rightarrow> 'a option \<Rightarrow> 'a smtp_call list
    \<Rightarrow> error option \<times> 'a smtp_call list" where
  "authenticate env a tr =
     (case a of
        None \<Rightarrow> (None, tr)
      | Some au \<Rightarrow>
          if \<not> Extension env tr ''AUTH''
          then (Some ''smtp: server doesn't support AUTH'', tr)
          else exec env (Auth au) tr)"

text \<open>
  Lines 29 to 69, the body of SendMail after \<open>defer c.Close()\<close>, started with the log
  \<open>tr0\<close>. Every \<open>if err != nil { return err }\<close> is a \<open>Some e\<close> branch.
\<close>

definition session :: "'a smtp_env \<Rightarrow> string \<Rightarrow> string \<Rightarrow> 'a option \<Rightarrow> string
    \<Rightarrow> string list \<Rightarrow> bytes \<Rightarrow> 'a smtp_call list \<Rightarrow> error option \<times> 'a smtp_call list" where
  "session env serverName hostname a from to msg tr0 =
     (case exec env (Hello hostname) tr0 of
        (Some e, tr1) \<Rightarrow> (Some e, tr1)
      | (None, tr1) \<Rightarrow>
     (case upgradeTLS env serverName tr1 of
        (Some e, tr2) \<Rightarrow> (Some e, tr2)
      | (None, tr2) \<Rightarrow>
     (case authenticate env a tr2 of
        (Some e, tr3) \<Rightarrow> (Some e, tr3)
      | (None, tr3) \<Rightarrow>
     (case exec env (Mail from) tr3 of
        (Some e, tr4) \<Rightarrow> (Some e, tr4)
      | (None, tr4) \<Rightarrow>
     (case rcptLoop env to tr4 of
        (Some e, tr5) \<Rightarrow> (Some e, tr5)
      | (None, tr5) \<Rightarrow>
     (case exec env Data tr5 of
        (Some e, tr6) \<Rightarrow> (Some e, tr6)
      | (None, tr6) \<Rightarrow>
     (case exec env (Write msg) tr6 of
        (Some e, tr7) \<Rightarrow> (Some e, tr7)
      | (None, tr7) \<Rightarrow>
     (case exec env CloseWriter tr7 of
        (Some e, tr8) \<Rightarrow> (Some e, tr8)
      | (None, tr8) \<Rightarrow> exec env Quit tr8))))))))"

text \<open>
  SendMail returns its error and, in the model, the log of operations it made. The
  deferred \<open>c.Close()\<close> runs on every return that follows a successful dial; its own
  error is dropped.
\<close>

definition SendMail :: "'a smtp_env \<Rightarrow> string \<Rightarrow> 'a option \<Rightarrow> string \<Rightarrow> string list \<Rightarrow> bytes
    \<Rightarrow> error option \<times> 'a smtp_call list" where
  "SendMail env addr a from to msg =
     (let serverName = SplitHostPort env addr;
          hostname = Hostname env
      in case validateLine from of
           Some e \<Rightarrow> (Some e, [])
         | None \<Rightarrow>
        (case validateRecipients to of
           Some e \<Rightarrow> (Some e, [])
         | None \<Rightarrow>
        (case exec env (Dial addr) [] of
           (Some e, tr) \<Rightarrow> (Some e, tr)
         | (None, tr) \<Rightarrow>
             (case session env serverName hostname a from to msg tr of
                (r, tr') \<Rightarrow> (r, snd (exec env Close tr'))))))"

subsection \<open>The protocol as a list of steps\<close>

text \<open>
  The eight protocol steps of the transaction client, as the specification lists them,
  with one step per declared recipient. \<open>perform\<close> is what one step does on the network;
  \<open>runSteps\<close> performs steps in order and stops at the first one that fails. SendMail is
  compared with this reading below.
\<close>

datatype step =
    Connect
  | Greeting
  | Upgrade
  | Authenticate
  | DeclareSender
  | DeclareRecipient string
  | TransferBody
  | Terminate

fun perform :: "'a smtp_env \<Rightarrow> string \<Rightarrow> 'a option \<Rightarrow> string \<Rightarrow> bytes \<Rightarrow> step
    \<Rightarrow> 'a smtp_call list \<Rightarrow> error option \<times> 'a smtp_call list" where
  "perform env addr a from msg Connect tr = exec env (Dial addr) tr"
| "perform env addr a from msg Greeting tr = exec env (Hello (Hostname env)) tr"
| "perform env addr a from msg Upgrade tr = upgradeTLS env (SplitHostPort env addr) tr"
| "perform env addr a from msg Authenticate tr = authenticate env a tr"
| "perform env addr a from msg DeclareSender tr = exec env (Mail from) tr"
| "perform env addr a from msg (DeclareRecipient r) tr = exec env (Rcpt r) tr"
| "perform env addr a from msg TransferBody tr =
     (case exec env Data tr of
        (Some e, tr') \<Rightarrow> (Some e, tr')
      | (None, tr') \<Rightarrow>
     (case exec env (Write msg) tr' of
        (Some e, tr'') \<Rightarrow> (Some e, tr'')
      | (None, tr'') \<Rightarrow> exec env CloseWriter tr''))"
| "perform env addr a from msg Terminate tr = exec env Quit tr"

fun runSteps :: "'a smtp_env \<Rightarrow> string \<Rightarrow> 'a option \<Rightarrow> string \<Rightarrow> bytes \<Rightarrow> step list
    \<Rightarrow> 'a smtp_call list \<Rightarrow> error option \<times> 'a smtp_call list" where
  "runSteps env addr a from msg [] tr = (None, tr)"
| "runSteps env addr a from msg (s # ss) tr =
     (case perform env addr a from msg s tr of
        (Some e, tr') \<Rightarrow> (Some e, tr')
      | (None, tr') \<Rightarrow> runSteps env addr a from msg ss tr')"

definition protocolSteps :: "string list \<Rightarrow> step list" where
  "protocolSteps to =
     [Connect, Greeting, Upgrade, Authenticate, DeclareSender]
       @ map DeclareRecipient to @ [TransferBody, Terminate]"

text \<open>The steps that follow the dial, which SendMail makes with the connection open.\<close>

definition sessionSteps :: "string list \<Rightarrow> step list" where
  "sessionSteps to =
     [Greeting, Upgrade, Authenticate, DeclareSender]
       @ map DeclareRecipient to @ [TransferBody, Terminate]"

text \<open>The operations a step can make.\<close>

fun stepCalls :: "'a smtp_env \<Rightarrow> string \<Rightarrow> 'a option \<Rightarrow> string \<Rightarrow> bytes \<Rightarrow> step
    \<Rightarrow> 'a smtp_call set" where
  "stepCalls env addr a from msg Connect = {Dial addr}"
| "stepCalls env addr a from msg Greeting = {Hello (Hostname env)}"
| "stepCalls env addr a from msg Upgrade =
     {StartTLS \<lparr>ServerName = SplitHostPort env addr, InsecureSkipVerify = True\<rparr>}"
| "stepCalls env addr a from msg Authenticate = (case a of None \<Rightarrow> {} | Some au \<Rightarrow> {Auth au})"
| "stepCalls env addr a from msg DeclareSender = {Mail from}"
| "stepCalls env addr a from msg (DeclareRecipient r) = {Rcpt r}"
| "stepCalls env addr a from msg TransferBody = {Data, Write msg, CloseWriter}"
| "stepCalls env addr a from msg Terminate = {Quit}"

text \<open>
  The operations a step makes when none fails, given the log before it, and those of a
  list of steps.
\<close>

fun stepPlan :: "'a smtp_env \<Rightarrow> string \<Rightarrow> 'a option \<Rightarrow> string \<Rightarrow> bytes \<Rightarrow> step
    \<Rightarrow> 'a smtp_call list \<Rightarrow> 'a smtp_call list" where
  "stepPlan env addr a from msg Connect tr = [Dial addr]"
| "stepPlan env addr a from msg Greeting tr = [Hello (Hostname env)]"
| "stepPlan env addr a from msg Upgrade tr =
     (if Extension env tr ''STARTTLS''
      then [StartTLS \<lparr>ServerName = SplitHostPort env addr, InsecureSkipVerify = True\<rparr>]
      else [])"
| "stepPlan env addr a from msg Authenticate tr = (case a of None \<Rightarrow> [] | Some au \<Rightarrow> [Auth au])"
| "stepPlan env addr a from msg DeclareSender tr = [Mail from]"
| "stepPlan env addr a from msg (DeclareRecipient r) tr = [Rcpt r]"
| "stepPlan env addr a from msg TransferBody tr = [Data, Write msg, CloseWriter]"
| "stepPlan env addr a from msg Terminate tr = [Quit]"

fun plan :: "'a smtp_env \<Rightarrow> string \<Rightarrow> 'a option \<Rightarrow> string \<Rightarrow> bytes \<Rightarrow> step list
    \<Rightarrow> 'a smtp_call list \<Rightarrow> 'a smtp_call list" where
  "plan env addr a from msg [] tr = []"
| "plan env addr a from msg (s # ss) tr =
     stepPlan env addr a from msg s tr
       @ plan env addr a from msg ss (tr @ stepPlan env addr a from msg s tr)"

text \<open>
  The operations of a complete session in their order on the wire: dial, greeting with
  the local host name, STARTTLS when the server advertises it after the greeting,
  authentication when credentials were passed, the sender, one RCPT for each recipient
  in the order of the list, and the message as one DATA stream, then QUIT.
\<close>

definition wireOrder :: "'a smtp_env \<Rightarrow> string \<Rightarrow> 'a option \<Rightarrow> string \<Rightarrow> string list \<Rightarrow> bytes
    \<Rightarrow> 'a smtp_call list" where
  "wireOrder env addr a from to msg =
     [Dial addr, Hello (Hostname env)]
     @ (if Extension env [Dial addr, Hello (Hostname env)] ''STARTTLS''
        then [StartTLS \<lparr>ServerName = SplitHostPort env addr, InsecureSkipVerify = True\<rparr>]
        else [])
     @ (case a of None \<Rightarrow> [] | Some au \<Rightarrow> [Auth au])
     @ [Mail from] @ map Rcpt to @ [Data, Write msg, CloseWriter, Quit]"

text \<open>Every operation of \<open>xs\<close>, made in order after the log \<open>tr\<close>, returns no error.\<close>

fun allOk :: "'a smtp_env \<Rightarrow> 'a smtp_call list \<Rightarrow> 'a smtp_call list \<Rightarrow> bool" where
  "allOk env tr [] = True"
| "allOk env tr (c # cs) = (reply env tr c = None \<and> allOk env (tr @ [c]) cs)"

text \<open>
  What a run that starts with the log \<open>tr\<close> may return: it extends the log; when it
  returns no error every operation it made succeeded; when it returns an error either
  no operation failed (the error is the client's own) or the last operation made is the
  only one that failed, and its error is the one returned.
\<close>

definition outcome :: "'a smtp_env \<Rightarrow> 'a smtp_call list
    \<Rightarrow> error option \<times> 'a smtp_call list \<Rightarrow> bool" where
  "outcome env tr res =
     (\<exists>ys. snd res = tr @ ys \<and>
        (case fst res of
           None \<Rightarrow> allOk env tr ys
         | Some e \<Rightarrow> allOk env tr ys
             \<or> (\<exists>zs c. ys = zs @ [c] \<and> allOk env tr zs \<and> reply env (tr @ zs) c = Some e)))"


section \<open>Envelope construction (package sendmail, function NewEnvelope)\<close>

record Config =
  Sender :: string
  Recipients :: "string list"
  Subject :: string
  Body :: bytes
  PortSMTP :: string

text \<open>\<open>mail.Address\<close> and \<open>mail.Message\<close> of \<open>net/mail\<close>; the body is a reader over bytes.\<close>

record mail_Address =
  Name :: string
  Address :: string

record mail_Message =
  Header :: "string \<rightharpoonup> string list"
  MessageBody :: bytes

record Envelope =
  Message :: mail_Message
  EnvelopeRecipients :: "string list"
  EnvelopePortSMTP :: string

text \<open>
  What NewEnvelope calls outside of \<open>sendmail.go\<close>; all of it is a parameter.
  \<open>ReadMessage\<close>, \<open>AddressList\<close> (the method of \<open>mail.Header\<close>) and
  \<open>ParseAddressList\<close> belong to \<open>net/mail\<close>; \<open>GetDumbMessage\<close> and
  \<open>AddressListToSlice\<close> are helpers of the package defined in another file, about
  which nothing is assumed; \<open>CurrentUsername\<close> is \<open>user.Current\<close> followed by \<open>.Username\<close>,
  \<open>OsHostname\<close> is \<open>os.Hostname\<close> and \<open>EncodeToString\<close> is that of
  \<open>base64.StdEncoding\<close>. A call that returns \<open>(value, error)\<close> is a sum, \<open>Inl\<close> the error.
\<close>

record mail_env =
  ReadMessage :: "bytes \<Rightarrow> error + mail_Message"
  GetDumbMessage :: "string \<Rightarrow> string list \<Rightarrow> bytes \<Rightarrow> error + mail_Message"
  AddressList :: "(string \<rightharpoonup> string list) \<Rightarrow> string \<Rightarrow> error + mail_Address list"
  ParseAddressList :: "string \<Rightarrow> error + mail_Address list"
  AddressListToSlice :: "mail_Address list \<Rightarrow> string list"
  CurrentUsername :: "error + string"
  OsHostname :: "error + string"
  EncodeToString :: "bytes \<Rightarrow> string"

text \<open>\<open>strings.Join\<close>.\<close>

fun Join :: "string list \<Rightarrow> string \<Rightarrow> string" where
  "Join [] sep = []"
| "Join [x] sep = x"
| "Join (x # y # ys) sep = x @ sep @ Join (y # ys) sep"

text \<open>
  Lines 42 to 50: the message is read from the body; when that fails and recipients
  were given, a plain message is built instead. An error left at line 47 returns.
\<close>

definition getMessage :: "mail_env \<Rightarrow> Config \<Rightarrow> error + mail_Message" where
  "getMessage w config =
     (case ReadMessage w (Body config) of
        Inr msg \<Rightarrow> Inr msg
      | Inl err \<Rightarrow>
          if length (Recipients config) > 0
          then GetDumbMessage w (Sender config) (Recipients config) (Body config)
          else Inl err)"

text \<open>
  Lines 52 to 77: default port, sender and subject. The function writes to the
  \<open>Config\<close> it was given a pointer to and to the header of the message; both are
  returned. An address list that fails to parse is \<open>nil\<close>, of length 0.
\<close>

definition prepare :: "mail_env \<Rightarrow> Config \<Rightarrow> mail_Message \<Rightarrow> mail_Message \<times> Config" where
  "prepare w config msg =
     (let config1 = (if PortSMTP config = '''' then config\<lparr>PortSMTP := ''25''\<rparr> else config);
          (msg2, config2) =
            (if Sender config1 \<noteq> ''''
             then (msg\<lparr>Header := (Header msg)(''From'' \<mapsto> [Sender config1])\<rparr>, config1)
             else
               let sender = (case AddressList w (Header msg) ''From'' of
                               Inr l \<Rightarrow> l | Inl _ \<Rightarrow> []);
                   config' = (case sender of
                                [] \<Rightarrow> config1
                              | s # _ \<Rightarrow> config1\<lparr>Sender := Address s\<rparr>)
               in if Sender config' = ''''
                  then (case CurrentUsername w of
                          Inl _ \<Rightarrow> (msg, config')
                        | Inr username \<Rightarrow>
                            (case OsHostname w of
                               Inl _ \<Rightarrow> (msg, config')
                             | Inr hostname \<Rightarrow>
                                 (msg\<lparr>Header := (Header msg)
                                    (''From'' \<mapsto> [username @ ''@'' @ hostname])\<rparr>,
                                  config'\<lparr>Sender := username @ ''@'' @ hostname\<rparr>)))
                  else (msg, config'));
          msg3 = (if Subject config2 \<noteq> ''''
                  then msg2\<lparr>Header := (Header msg2)
                         (''Subject'' \<mapsto> [''=?UTF-8?B?'' @ EncodeToString w (Subject config2)])\<rparr>
                  else msg2)
      in (msg3, config2))"

text \<open>
  Lines 79 to 100: the recipients, from the configuration when it lists any (a list
  that does not parse leaves \<open>recipients\<close> nil), from the headers To, Cc and Bcc
  otherwise. \<open>Inl\<close> is the return of line 89.
\<close>

definition resolveRecipients :: "mail_env \<Rightarrow> Config \<Rightarrow> mail_Message \<Rightarrow> error + string list" where
  "resolveRecipients w config msg =
     (if length (Recipients config) > 0
      then (case ParseAddressList w (Join (Recipients config) '','') of
              Inr recipient \<Rightarrow> Inr (AddressListToSlice w recipient)
            | Inl _ \<Rightarrow> Inr [])
      else (case AddressList w (Header msg) ''To'' of
              Inl err \<Rightarrow> Inl err
            | Inr recipientsList \<Rightarrow>
                let rcpt = (\<lambda>field. case AddressList w (Header msg) field of
                                       Inr recipient \<Rightarrow> recipient
                                     | Inl _ \<Rightarrow> [])
                in Inr (AddressListToSlice w (recipientsList @ rcpt ''Cc'' @ rcpt ''Bcc''))))"

text \<open>NewEnvelope returns the envelope or the error, and the \<open>Config\<close> as it has left it.\<close>

definition NewEnvelope :: "mail_env \<Rightarrow> Config \<Rightarrow> (error + Envelope) \<times> Config" where
  "NewEnvelope w config =
     (case getMessage w config of
        Inl err \<Rightarrow> (Inl err, config)
      | Inr msg \<Rightarrow>
          (case prepare w config msg of
             (msg', config') \<Rightarrow>
               (case resolveRecipients w config' msg' of
                  Inl err \<Rightarrow> (Inl err, config')
                | Inr recipients \<Rightarrow>
                    if length recipients = 0
                    then (Inl ''no recipients listed'', config')
                    else (Inr \<lparr>Message = msg', EnvelopeRecipients = recipients,
                               EnvelopePortSMTP = PortSMTP config'\<rparr>, config'))))"

section \<open>Choice of the delivery path (method Send)\<close>

record relayConfig =
  RelayHost :: string
  RelayLogin :: string
  RelayPassword :: string

text \<open>
  What Send calls: \<open>ioutil.ReadFile\<close>, \<open>yaml.Unmarshal\<close> into the zero-valued
  \<open>relayConfig\<close> (a key the file does not have leaves the empty string), \<open>os.Getenv\<close>
  (the empty string for a variable that is not set), and the two delivery methods of
  \<open>Envelope\<close>, \<open>SendSmarthost\<close> and \<open>SendLikeMTA\<close>, defined in another file of the package.
  \<open>'e\<close> is the envelope, \<open>'r\<close> the channel of results they return.
\<close>

record ('e, 'r) send_env =
  ReadFile :: "string \<Rightarrow> error + bytes"
  Unmarshal :: "bytes \<Rightarrow> error + relayConfig"
  Getenv :: "string \<Rightarrow> string"
  SendSmarthost :: "'e \<Rightarrow> string \<Rightarrow> string \<Rightarrow> string \<Rightarrow> 'r"
  SendLikeMTA :: "'e \<Rightarrow> 'r"

text \<open>Lines 139 to 147: an empty setting is replaced by its environment variable.\<close>

definition resolveRelay :: "('e, 'r) send_env \<Rightarrow> relayConfig \<Rightarrow> relayConfig" where
  "resolveRelay w rc =
     (let rc1 = (if RelayHost rc = ''''
                 then rc\<lparr>RelayHost := Getenv w ''SENDMAIL_SMART_HOST''\<rparr> else rc);
          rc2 = (if RelayLogin rc1 = ''''
                 then rc1\<lparr>RelayLogin := Getenv w ''SENDMAIL_SMART_LOGIN''\<rparr> else rc1);
          rc3 = (if RelayPassword rc2 = ''''
                 then rc2\<lparr>RelayPassword := Getenv w ''SENDMAIL_SMART_PASSWORD''\<rparr> else rc2)
      in rc3)"

definition Send :: "('e, 'r) send_env \<Rightarrow> 'e \<Rightarrow> error + 'r" where
  "Send w e =
     (case ReadFile w ''/etc/go-sendmail.yaml'' of
        Inl err \<Rightarrow> Inl (''Failed to read config file: '' @ err)
      | Inr data \<Rightarrow>
          (case Unmarshal w data of
             Inl err \<Rightarrow> Inl (''Error while parsing config file: '' @ err)
           | Inr rc \<Rightarrow>
               let relayConfig = resolveRelay w rc
               in if RelayHost relayConfig \<noteq> ''''
                  then Inr (SendSmarthost w e (RelayHost relayConfig) (RelayLogin relayConfig)
                              (RelayPassword relayConfig))
                  else Inr (SendLikeMTA w e)))"

section \<open>Example servers and environments\<close>

text \<open>
  A server that advertises STARTTLS and AUTH as told and returns an error for exactly
  the operations listed; the client runs on \<open>client.example.org\<close>.
\<close>

definition testServer :: "bool \<Rightarrow> bool \<Rightarrow> string smtp_call list \<Rightarrow> string smtp_env" where
  "testServer tls auth rejected =
     \<lparr>SplitHostPort = takeWhile (\<lambda>c. c \<noteq> CHR '':''),
      Hostname = ''client.example.org'',
      reply = (\<lambda>tr c. if c \<in> set rejected then Some ''550 rejected'' else None),
      Extension = (\<lambda>tr ext. (ext = ''STARTTLS'' \<and> tls) \<or> (ext = ''AUTH'' \<and> auth))\<rparr>"

text \<open>
  A stand-in for the mail library: the body never parses as a message, so the message
  is the plain one built from the configuration; two address lists parse, anything else
  does not; the encoder leaves its input as it is.
\<close>

definition testParse :: "string \<Rightarrow> error + mail_Address list" where
  "testParse s =
     (if s = ''a@example.com,b@example.com''
      then Inr [\<lparr>Name = '''', Address = ''a@example.com''\<rparr>,
                \<lparr>Name = '''', Address = ''b@example.com''\<rparr>]
      else if s = ''me@example.org''
      then Inr [\<lparr>Name = '''', Address = ''me@example.org''\<rparr>]
      else Inl ''mail: no angle-addr'')"

definition testMail :: mail_env where
  "testMail =
     \<lparr>ReadMessage = (\<lambda>body. Inl ''malformed MIME header line''),
      GetDumbMessage = (\<lambda>sender recipients body.
        Inr \<lparr>Header = [''From'' \<mapsto> [sender], ''To'' \<mapsto> [Join recipients '','']],
             MessageBody = body\<rparr>),
      AddressList = (\<lambda>header key.
        case header key of
          None \<Rightarrow> Inl ''mail: header not in message''
        | Some vs \<Rightarrow> testParse (Join vs '', '')),
      ParseAddressList = testParse,
      AddressListToSlice = map Address,
      CurrentUsername = Inr ''root'',
      OsHostname = Inr ''client.example.org'',
      EncodeToString = (\<lambda>s. s)\<rparr>"

text \<open>
  A host for Send: what reading the configuration file returns, what the file parses to
  and the environment; the two delivery methods return a description of the call.
\<close>

definition testHost :: "error + bytes \<Rightarrow> relayConfig \<Rightarrow> (string \<Rightarrow> string)
    \<Rightarrow> (unit, string) send_env" where
  "testHost file rc env =
     \<lparr>ReadFile = (\<lambda>path. file),
      Unmarshal = (\<lambda>data. Inr rc),
      Getenv = env,
      SendSmarthost = (\<lambda>e host login password.
        ''smarthost '' @ host @ '' '' @ login @ '' '' @ password),
      SendLikeMTA = (\<lambda>e. ''like MTA'')\<rparr>"

section \<open>Address validation\<close>

lemma validateLine_None: "validateLine s = None \<longleftrightarrow> CHR 0x0A \<notin> set s \<and> CHR 0x0D \<notin> set s"
  by (auto simp: validateLine_def ContainsAny_def)

lemma validateLine_Some:
  "validateLine s = Some e \<longleftrightarrow>
     e = ''smtp: A line must not contain CR or LF'' \<and> (CHR 0x0A \<in> set s \<or> CHR 0x0D \<in> set s)"
  by (auto simp: validateLine_def ContainsAny_def)

lemma validateRecipients_None:
  "validateRecipients to = None \<longleftrightarrow> (\<forall>s \<in> set to. CHR 0x0A \<notin> set s \<and> CHR 0x0D \<notin> set s)"
proof (induction to)
  case Nil
  show ?case by simp
next
  case (Cons recp rest)
  show ?case
  proof (cases "validateLine recp")
    case None
    then have "validateRecipients (recp # rest) = validateRecipients rest" by simp
    moreover from None have "CHR 0x0A \<notin> set recp \<and> CHR 0x0D \<notin> set recp"
      by (simp add: validateLine_None)
    ultimately show ?thesis using Cons.IH by auto
  next
    case (Some e')
    then have "validateRecipients (recp # rest) = Some e'" by simp
    moreover from Some have "e' = ''smtp: A line must not contain CR or LF''
        \<and> (CHR 0x0A \<in> set recp \<or> CHR 0x0D \<in> set recp)"
      by (simp add: validateLine_Some)
    ultimately show ?thesis by auto
  qed
qed

lemma validateRecipients_Some:
  "validateRecipients to = Some e \<longleftrightarrow>
     e = ''smtp: A line must not contain CR or LF''
     \<and> (\<exists>s \<in> set to. CHR 0x0A \<in> set s \<or> CHR 0x0D \<in> set s)"
proof (induction to)
  case Nil
  show ?case by simp
next
  case (Cons recp rest)
  show ?case
  proof (cases "validateLine recp")
    case None
    then have "validateRecipients (recp # rest) = validateRecipients rest" by simp
    moreover from None have "CHR 0x0A \<notin> set recp \<and> CHR 0x0D \<notin> set recp"
      by (simp add: validateLine_None)
    ultimately show ?thesis using Cons.IH by auto
  next
    case (Some e')
    then have "validateRecipients (recp # rest) = Some e'" by simp
    moreover from Some have "e' = ''smtp: A line must not contain CR or LF''
        \<and> (CHR 0x0A \<in> set recp \<or> CHR 0x0D \<in> set recp)"
      by (simp add: validateLine_Some)
    ultimately show ?thesis by auto
  qed
qed

section \<open>SendMail performs the protocol steps in order\<close>

lemma runSteps_append:
  "runSteps env addr a from msg (xs @ ys) tr =
     (case runSteps env addr a from msg xs tr of
        (Some e, tr') \<Rightarrow> (Some e, tr')
      | (None, tr') \<Rightarrow> runSteps env addr a from msg ys tr')"
  by (induction xs arbitrary: tr) (auto split: prod.splits option.splits)

lemma rcptLoop_runSteps:
  "rcptLoop env to tr = runSteps env addr a from msg (map DeclareRecipient to) tr"
  by (induction to arbitrary: tr) (auto split: prod.splits option.splits)

lemma session_runSteps:
  "session env (SplitHostPort env addr) (Hostname env) a from to msg tr =
     runSteps env addr a from msg (sessionSteps to) tr"
  unfolding session_def sessionSteps_def runSteps_append
    rcptLoop_runSteps [of env to _ addr a "from" msg]
  by (simp split: prod.splits option.splits)

lemma protocolSteps_eq: "protocolSteps to = Connect # sessionSteps to"
  by (simp add: protocolSteps_def sessionSteps_def)

lemma SendMail_as_steps:
  assumes "validateLine from = None" and "validateRecipients to = None"
  shows "SendMail env addr a from to msg =
     (case runSteps env addr a from msg (protocolSteps to) [] of
        (r, tr) \<Rightarrow> (r, if reply env [] (Dial addr) = None then tr @ [Close] else tr))"
  using assms
  by (simp add: SendMail_def protocolSteps_eq session_runSteps exec_def
      split: prod.splits option.splits)

lemma SendMail_dial_failed:
  assumes "validateLine from = None" and "validateRecipients to = None"
    and "reply env [] (Dial addr) = Some e"
  shows "SendMail env addr a from to msg = (Some e, [Dial addr])"
  using assms by (simp add: SendMail_def exec_def)

lemma SendMail_dialed:
  assumes "validateLine from = None" and "validateRecipients to = None"
    and "reply env [] (Dial addr) = None"
    and "runSteps env addr a from msg (sessionSteps to) [Dial addr] = (r, tr)"
  shows "SendMail env addr a from to msg = (r, tr @ [Close])"
  using assms by (simp add: SendMail_def exec_def session_runSteps)

subsection \<open>At most the last operation of a run fails\<close>

lemma allOk_append: "allOk env tr (xs @ ys) = (allOk env tr xs \<and> allOk env (tr @ xs) ys)"
  by (induction xs arbitrary: tr) auto

lemma outcome_exec: "outcome env tr (exec env c tr)"
proof (cases "reply env tr c")
  case None
  then show ?thesis by (simp add: outcome_def exec_def)
next
  case (Some e)
  then have "\<exists>zs c'. [c] = zs @ [c'] \<and> allOk env tr zs \<and> reply env (tr @ zs) c' = Some e"
    by (intro exI [of _ "[]"] exI [of _ c]) simp
  with Some show ?thesis by (simp add: outcome_def exec_def)
qed

lemma outcome_skip: "outcome env tr (r, tr)"
  by (cases r) (simp_all add: outcome_def)

lemma outcome_upgradeTLS: "outcome env tr (upgradeTLS env sn tr)"
  by (simp add: upgradeTLS_def outcome_exec outcome_skip)

lemma outcome_authenticate: "outcome env tr (authenticate env a tr)"
  by (simp add: authenticate_def outcome_exec outcome_skip split: option.splits)

lemma outcome_seq:
  assumes "outcome env tr (None, tr')" and "outcome env tr' res"
  shows "outcome env tr res"
proof -
  from assms(1) obtain ys where ys: "tr' = tr @ ys" "allOk env tr ys"
    by (auto simp: outcome_def)
  from assms(2) obtain ws where ws: "snd res = tr' @ ws"
    and c: "case fst res of None \<Rightarrow> allOk env tr' ws
        | Some e \<Rightarrow> allOk env tr' ws
            \<or> (\<exists>zs c. ws = zs @ [c] \<and> allOk env tr' zs \<and> reply env (tr' @ zs) c = Some e)"
    by (auto simp: outcome_def)
  have "snd res = tr @ (ys @ ws)" using ys ws by simp
  moreover have "case fst res of None \<Rightarrow> allOk env tr (ys @ ws)
        | Some e \<Rightarrow> allOk env tr (ys @ ws)
            \<or> (\<exists>zs c. ys @ ws = zs @ [c] \<and> allOk env tr zs \<and> reply env (tr @ zs) c = Some e)"
  proof (cases "fst res")
    case None
    with c ys show ?thesis by (simp add: allOk_append)
  next
    case (Some e)
    with c consider "allOk env tr' ws"
      | zs c where "ws = zs @ [c]" "allOk env tr' zs" "reply env (tr' @ zs) c = Some e"
      by auto
    then show ?thesis
    proof cases
      case 1
      with Some ys show ?thesis by (simp add: allOk_append)
    next
      case 2
      then have "ys @ ws = (ys @ zs) @ [c] \<and> allOk env tr (ys @ zs)
          \<and> reply env (tr @ (ys @ zs)) c = Some e"
        using ys by (simp add: allOk_append)
      then show ?thesis using Some by (simp del: append_assoc)
    qed
  qed
  ultimately show ?thesis unfolding outcome_def by blast
qed

lemma outcome_then:
  assumes "outcome env tr (f tr)"
    and "\<And>tr'. outcome env tr' (g tr')"
  shows "outcome env tr (case f tr of (Some e, tr') \<Rightarrow> (Some e, tr') | (None, tr') \<Rightarrow> g tr')"
proof (cases "f tr")
  case (Pair r tr')
  show ?thesis
  proof (cases r)
    case None
    with Pair assms(1) have "outcome env tr (None, tr')" by simp
    from outcome_seq [OF this assms(2)] show ?thesis using Pair None by simp
  next
    case (Some e)
    with Pair assms(1) show ?thesis by simp
  qed
qed

lemma outcome_perform: "outcome env tr (perform env addr a from msg s tr)"
proof (cases s)
  case TransferBody
  show ?thesis unfolding TransferBody perform.simps
    by (intro outcome_then outcome_exec)
qed (simp_all add: outcome_exec outcome_upgradeTLS outcome_authenticate)

lemma outcome_runSteps: "outcome env tr (runSteps env addr a from msg steps tr)"
proof (induction steps arbitrary: tr)
  case Nil
  show ?case by (simp add: outcome_skip)
next
  case (Cons s ss)
  show ?case unfolding runSteps.simps
    by (intro outcome_then outcome_perform Cons.IH)
qed

lemma outcome_fail_last:
  assumes "outcome env tr (r, tr @ ys)"
    and "ys = x1 @ c # x2" and "reply env (tr @ x1) c = Some e"
  shows "x2 = [] \<and> r = Some e"
proof -
  have bad: "\<not> allOk env tr (x1 @ c # x2 @ more)" for x2 more
    using assms(3) by (simp add: allOk_append)
  from bad [of x2 "[]"] have nok: "\<not> allOk env tr ys" using assms(2) by simp
  with assms(1) obtain e' zs c' where r: "r = Some e'" and zs: "ys = zs @ [c']"
    and ok: "allOk env tr zs" and rep: "reply env (tr @ zs) c' = Some e'"
    by (auto simp: outcome_def split: option.splits)
  show ?thesis
  proof (cases x2 rule: rev_cases)
    case Nil
    with assms(2) zs have "x1 = zs" "c = c'" by simp_all
    with rep assms(3) r Nil show ?thesis by simp
  next
    case (snoc x2' l)
    with assms(2) zs have "zs = x1 @ c # x2'" by simp
    with ok bad [of x2' "[]"] show ?thesis by simp
  qed
qed

subsection \<open>The operations a run makes\<close>

lemma perform_calls:
  "\<exists>xs. snd (perform env addr a from msg s tr) = tr @ xs
     \<and> set xs \<subseteq> stepCalls env addr a from msg s"
  by (cases s)
    (auto simp: exec_def upgradeTLS_def authenticate_def split: option.splits prod.splits)

lemma runSteps_calls:
  "\<exists>xs. snd (runSteps env addr a from msg steps tr) = tr @ xs
     \<and> set xs \<subseteq> (\<Union>s \<in> set steps. stepCalls env addr a from msg s)"
proof (induction steps arbitrary: tr)
  case Nil
  show ?case by simp
next
  case (Cons s ss)
  obtain r tr' where p: "perform env addr a from msg s tr = (r, tr')"
    by (cases "perform env addr a from msg s tr")
  from perform_calls [of env addr a "from" msg s tr] p
  obtain xs where xs: "tr' = tr @ xs" "set xs \<subseteq> stepCalls env addr a from msg s"
    by auto
  show ?case
  proof (cases r)
    case (Some e)
    with p xs show ?thesis by auto
  next
    case None
    from Cons.IH [of tr'] obtain zs
      where zs: "snd (runSteps env addr a from msg ss tr') = tr' @ zs"
        "set zs \<subseteq> (\<Union>s \<in> set ss. stepCalls env addr a from msg s)"
      by auto
    have "snd (runSteps env addr a from msg (s # ss) tr) = tr @ (xs @ zs)"
      using p None xs zs by simp
    moreover have "set (xs @ zs) \<subseteq> (\<Union>s \<in> set (s # ss). stepCalls env addr a from msg s)"
      using xs zs by auto
    ultimately show ?thesis by blast
  qed
qed

lemma perform_plan:
  assumes "perform env addr a from msg s tr = (r, tr')"
  shows "\<exists>xs. tr' = tr @ xs \<and> prefix xs (stepPlan env addr a from msg s tr)
     \<and> (r = None \<longrightarrow> xs = stepPlan env addr a from msg s tr)"
  using assms
  by (cases s)
    (auto simp: exec_def upgradeTLS_def authenticate_def
      split: option.splits prod.splits if_splits)

lemma runSteps_plan:
  assumes "runSteps env addr a from msg steps tr = (r, tr')"
  shows "\<exists>xs. tr' = tr @ xs \<and> prefix xs (plan env addr a from msg steps tr)
     \<and> (r = None \<longrightarrow> xs = plan env addr a from msg steps tr)"
  using assms
proof (induction steps arbitrary: tr)
  case Nil
  then show ?case by simp
next
  case (Cons s ss)
  obtain r1 tr1 where p: "perform env addr a from msg s tr = (r1, tr1)"
    by (cases "perform env addr a from msg s tr")
  from perform_plan [OF p] obtain xs where xs: "tr1 = tr @ xs"
    "prefix xs (stepPlan env addr a from msg s tr)"
    "r1 = None \<longrightarrow> xs = stepPlan env addr a from msg s tr" by blast
  show ?case
  proof (cases r1)
    case (Some e)
    with p Cons.prems have "r = Some e" "tr' = tr1" by simp_all
    with xs show ?thesis by (auto intro: prefix_order.trans)
  next
    case None
    with p Cons.prems have run: "runSteps env addr a from msg ss tr1 = (r, tr')" by simp
    from Cons.IH [OF run] obtain zs where zs: "tr' = tr1 @ zs"
      "prefix zs (plan env addr a from msg ss tr1)"
      "r = None \<longrightarrow> zs = plan env addr a from msg ss tr1" by blast
    from None xs have xs': "xs = stepPlan env addr a from msg s tr" by simp
    have "tr' = tr @ (xs @ zs)" using xs zs by simp
    moreover have "prefix (xs @ zs) (plan env addr a from msg (s # ss) tr)"
      using zs(2) xs' xs(1) by simp
    moreover have "r = None \<longrightarrow> xs @ zs = plan env addr a from msg (s # ss) tr"
      using zs(3) xs' xs(1) by simp
    ultimately show ?thesis by blast
  qed
qed

lemma plan_recipients:
  "plan env addr a from msg (map DeclareRecipient to @ rest) tr =
     map Rcpt to @ plan env addr a from msg rest (tr @ map Rcpt to)"
  by (induction to arbitrary: tr) simp_all

lemma plan_sessionSteps:
  "Dial addr # plan env addr a from msg (sessionSteps to) [Dial addr] =
     wireOrder env addr a from to msg"
  by (simp add: sessionSteps_def wireOrder_def plan_recipients split: option.splits)

lemma runSteps_callsE:
  assumes "runSteps env addr a from msg steps tr = (r, tr')"
  obtains xs where "tr' = tr @ xs"
    and "set xs \<subseteq> (\<Union>s \<in> set steps. stepCalls env addr a from msg s)"
  using runSteps_calls [of env addr a "from" msg steps tr] assms by auto

subsection \<open>The three ways a call of SendMail can go\<close>

lemma SendMail_cases [case_names invalid nodial dialed]:
  obtains e where "validateLine from = Some e \<or> validateRecipients to = Some e"
      and "SendMail env addr a from to msg = (Some e, [])"
  | e where "validateLine from = None" and "validateRecipients to = None"
      and "reply env [] (Dial addr) = Some e"
      and "SendMail env addr a from to msg = (Some e, [Dial addr])"
  | r xs where "validateLine from = None" and "validateRecipients to = None"
      and "reply env [] (Dial addr) = None"
      and "runSteps env addr a from msg (sessionSteps to) [Dial addr] = (r, Dial addr # xs)"
      and "set xs \<subseteq> (\<Union>s \<in> set (sessionSteps to). stepCalls env addr a from msg s)"
      and "outcome env [Dial addr] (r, Dial addr # xs)"
      and "prefix (Dial addr # xs) (wireOrder env addr a from to msg)"
      and "r = None \<longrightarrow> Dial addr # xs = wireOrder env addr a from to msg"
      and "SendMail env addr a from to msg = (r, Dial addr # xs @ [Close])"
proof (cases "validateLine from")
  case (Some e)
  then have "SendMail env addr a from to msg = (Some e, [])" by (simp add: SendMail_def)
  with Some that(1) show ?thesis by blast
next
  case v1: None
  show ?thesis
  proof (cases "validateRecipients to")
    case (Some e)
    with v1 have "SendMail env addr a from to msg = (Some e, [])" by (simp add: SendMail_def)
    with Some that(1) show ?thesis by blast
  next
    case v2: None
    show ?thesis
    proof (cases "reply env [] (Dial addr)")
      case (Some e)
      from that(2) [OF v1 v2 Some SendMail_dial_failed [OF v1 v2 Some]] show ?thesis .
    next
      case None
      obtain r tr
        where run: "runSteps env addr a from msg (sessionSteps to) [Dial addr] = (r, tr)"
        by (cases "runSteps env addr a from msg (sessionSteps to) [Dial addr]")
      from run obtain xs where xs: "tr = [Dial addr] @ xs"
        and sub: "set xs \<subseteq> (\<Union>s \<in> set (sessionSteps to). stepCalls env addr a from msg s)"
        by (rule runSteps_callsE)
      have out: "outcome env [Dial addr] (r, Dial addr # xs)"
        using outcome_runSteps [of env "[Dial addr]" addr a "from" msg "sessionSteps to"] run xs
        by simp
      from SendMail_dialed [OF v1 v2 None run] xs
      have sm: "SendMail env addr a from to msg = (r, Dial addr # xs @ [Close])" by simp
      from run xs have "runSteps env addr a from msg (sessionSteps to) [Dial addr]
          = (r, Dial addr # xs)" by simp
      moreover from runSteps_plan [OF run] xs
      have "prefix (Dial addr # xs) (wireOrder env addr a from to msg)"
        and "r = None \<longrightarrow> Dial addr # xs = wireOrder env addr a from to msg"
        by (auto simp flip: plan_sessionSteps)
      ultimately show ?thesis using that(3) [OF v1 v2 None _ sub out _ _ sm] by blast
    qed
  qed
qed

lemma Close_not_sessionStep:
  "Close \<notin> (\<Union>s \<in> set (sessionSteps to). stepCalls env addr a from msg s)"
  by (auto simp: sessionSteps_def split: option.splits)

lemma Dial_not_sessionStep:
  "Dial x \<notin> (\<Union>s \<in> set (sessionSteps to). stepCalls env addr a from msg s)"
  by (auto simp: sessionSteps_def split: option.splits)

lemma SendMail_fail_last:
  assumes log: "snd (SendMail env addr a from to msg) = tr1 @ c # tr2"
    and rep: "reply env tr1 c = Some e"
    and c: "c \<noteq> Close"
  shows "fst (SendMail env addr a from to msg) = Some e
    \<and> tr2 = (if c = Dial addr then [] else [Close])"
proof (cases env addr a "from" to msg rule: SendMail_cases)
  case (invalid e')
  with log show ?thesis by simp
next
  case (nodial e')
  with log have "tr1 = []" "c = Dial addr" "tr2 = []"
    by (simp_all add: Cons_eq_append_conv append_eq_Cons_conv)
  with rep nodial show ?thesis by simp
next
  case (dialed r xs)
  with log have eq: "Dial addr # xs @ [Close] = tr1 @ c # tr2" by simp
  have "tr1 \<noteq> []"
  proof
    assume "tr1 = []"
    with eq have "c = Dial addr" by simp
    with rep dialed(3) \<open>tr1 = []\<close> show False by simp
  qed
  then obtain x1 where x1: "tr1 = Dial addr # x1"
    using eq by (cases tr1) simp_all
  with eq have eq2: "xs @ [Close] = x1 @ c # tr2" by simp
  have "tr2 \<noteq> []"
  proof
    assume "tr2 = []"
    with eq2 have "c = Close" by simp
    with c show False by simp
  qed
  then obtain t2 l where t2: "tr2 = t2 @ [l]" by (cases tr2 rule: rev_cases) simp_all
  with eq2 have "xs @ [Close] = (x1 @ c # t2) @ [l]" by simp
  then have xs2: "xs = x1 @ c # t2" and l: "l = Close" by simp_all
  have "outcome env [Dial addr] (r, [Dial addr] @ xs)" using dialed(6) by simp
  from outcome_fail_last [OF this xs2] rep x1 have "t2 = [] \<and> r = Some e" by simp
  moreover have "c \<noteq> Dial addr"
  proof
    assume "c = Dial addr"
    then have "Dial addr \<in> set xs" using xs2 by simp
    with dialed(5) show False
      by (auto simp: sessionSteps_def split: option.splits)
  qed
  ultimately show ?thesis using dialed(9) t2 l by simp
qed

subsection \<open>The first steps of a session\<close>

lemma sessionSteps_unfold:
  "sessionSteps to =
     Greeting # Upgrade # Authenticate # DeclareSender
       # (map DeclareRecipient to @ [TransferBody, Terminate])"
  by (simp add: sessionSteps_def)

lemma upgradeTLS_log:
  assumes "upgradeTLS env sn tr = (r, tr')"
  shows "tr' = tr \<and> \<not> Extension env tr ''STARTTLS'' \<and> r = None
     \<or> tr' = tr @ [StartTLS \<lparr>ServerName = sn, InsecureSkipVerify = True\<rparr>]
        \<and> Extension env tr ''STARTTLS''
        \<and> r = reply env tr (StartTLS \<lparr>ServerName = sn, InsecureSkipVerify = True\<rparr>)"
  using assms by (auto simp: upgradeTLS_def exec_def split: if_splits)

lemma runSteps_Cons_logE:
  assumes "runSteps env addr a from msg (s # ss) tr = (r, tr')"
  obtains xs where "tr' = snd (perform env addr a from msg s tr) @ xs"
proof (cases "perform env addr a from msg s tr")
  case (Pair r1 tr1)
  show ?thesis
  proof (cases r1)
    case (Some e)
    with Pair assms that [of "[]"] show ?thesis by simp
  next
    case None
    with Pair assms have "runSteps env addr a from msg ss tr1 = (r, tr')" by simp
    then obtain xs where "tr' = tr1 @ xs" by (rule runSteps_callsE)
    with Pair that [of xs] show ?thesis by simp
  qed
qed

lemma StartTLS_in_wireOrder:
  assumes "prefix made (wireOrder env addr a from to msg)" and "StartTLS cfg \<in> set made"
  shows "cfg = \<lparr>ServerName = SplitHostPort env addr, InsecureSkipVerify = True\<rparr>
     \<and> Extension env [Dial addr, Hello (Hostname env)] ''STARTTLS''
     \<and> (\<exists>rest. made = Dial addr # Hello (Hostname env) # StartTLS cfg # rest)"
proof (cases "Extension env [Dial addr, Hello (Hostname env)] ''STARTTLS''")
  case False
  from assms have "StartTLS cfg \<in> set (wireOrder env addr a from to msg)"
    using set_mono_prefix by blast
  with False show ?thesis by (auto simp: wireOrder_def split: option.splits)
next
  case True
  let ?c0 = "\<lparr>ServerName = SplitHostPort env addr, InsecureSkipVerify = True\<rparr>"
  obtain w where w: "wireOrder env addr a from to msg
      = Dial addr # Hello (Hostname env) # StartTLS ?c0 # w"
    and nw: "StartTLS cfg \<notin> set w"
    using True by (auto simp: wireOrder_def split: option.splits)
  from assms(1) w have "prefix made (Dial addr # Hello (Hostname env) # StartTLS ?c0 # w)"
    by simp
  then consider "made = []" | "made = [Dial addr]" | "made = [Dial addr, Hello (Hostname env)]"
    | rest where "made = Dial addr # Hello (Hostname env) # StartTLS ?c0 # rest" "prefix rest w"
    by (auto simp: prefix_Cons)
  then show ?thesis
  proof cases
    case 4
    from 4(2) nw have "StartTLS cfg \<notin> set rest" using set_mono_prefix by blast
    with assms(2) 4(1) have "cfg = ?c0" by simp
    with 4(1) True show ?thesis by simp
  qed (use assms(2) in simp_all)
qed

subsection \<open>Envelope construction\<close>

lemma prepare_Recipients:
  "prepare w config msg = (msg', config') \<Longrightarrow> Recipients config' = Recipients config"
  by (auto simp: prepare_def Let_def split: if_splits sum.splits list.splits prod.splits)

lemmas NewEnvelope_eval =
  NewEnvelope_def getMessage_def prepare_def resolveRecipients_def testMail_def testParse_def
  Let_def


text \<open>The definitions that evaluate SendMail on a given server.\<close>

lemmas SendMail_eval =
  SendMail_def session_def exec_def upgradeTLS_def authenticate_def validateLine_def
  ContainsAny_def testServer_def

section \<open>The claims about SendMail\<close>

text \<open>
  C3. If the sender or any recipient contains a carriage return or a line feed, SendMail
  returns the validation error and its log of network operations is empty: nothing is
  dialed. If none of them does, validation passes: the first thing SendMail does is dial
  the server address.
\<close>

theorem SendMail_validates_addresses:
  "((\<exists>s \<in> set (from # to). CHR 0x0A \<in> set s \<or> CHR 0x0D \<in> set s) \<longrightarrow>
      SendMail env addr a from to msg = (Some ''smtp: A line must not contain CR or LF'', []))
   \<and> ((\<forall>s \<in> set (from # to). CHR 0x0A \<notin> set s \<and> CHR 0x0D \<notin> set s) \<longrightarrow>
      validateLine from = None \<and> validateRecipients to = None
      \<and> (\<exists>rest. snd (SendMail env addr a from to msg) = Dial addr # rest))"
proof (intro conjI impI)
  assume bad: "\<exists>s \<in> set (from # to). CHR 0x0A \<in> set s \<or> CHR 0x0D \<in> set s"
  show "SendMail env addr a from to msg = (Some ''smtp: A line must not contain CR or LF'', [])"
  proof (cases "validateLine from")
    case (Some e)
    then have "e = ''smtp: A line must not contain CR or LF''"
      by (simp add: validateLine_Some)
    with Some show ?thesis by (simp add: SendMail_def)
  next
    case None
    with bad have "\<exists>s \<in> set to. CHR 0x0A \<in> set s \<or> CHR 0x0D \<in> set s"
      by (auto simp: validateLine_None)
    then have "validateRecipients to = Some ''smtp: A line must not contain CR or LF''"
      by (simp add: validateRecipients_Some)
    with None show ?thesis by (simp add: SendMail_def)
  qed
next
  assume ok: "\<forall>s \<in> set (from # to). CHR 0x0A \<notin> set s \<and> CHR 0x0D \<notin> set s"
  then show "validateLine from = None" by (simp add: validateLine_None)
  from ok show "validateRecipients to = None" by (simp add: validateRecipients_None)
  from ok have v: "validateLine from = None" "validateRecipients to = None"
    by (simp_all add: validateLine_None validateRecipients_None)
  show "\<exists>rest. snd (SendMail env addr a from to msg) = Dial addr # rest"
  proof (cases "reply env [] (Dial addr)")
    case (Some e)
    from SendMail_dial_failed [OF v Some] show ?thesis by simp
  next
    case None
    obtain r tr where run: "runSteps env addr a from msg (sessionSteps to) [Dial addr] = (r, tr)"
      by (cases "runSteps env addr a from msg (sessionSteps to) [Dial addr]")
    from run obtain xs where "tr = [Dial addr] @ xs" by (rule runSteps_callsE)
    with SendMail_dialed [OF v None run] show ?thesis by simp
  qed
qed

theorem SendMail_validates_addresses_witness:
  "CHR 0x0D \<in> set (''b@example.com'' @ [CHR 0x0D, CHR 0x0A] @ ''DATA'')
   \<and> SendMail (testServer False False []) ''mx.example.com:25'' None ''me@example.org''
        [''a@example.com'', ''b@example.com'' @ [CHR 0x0D, CHR 0x0A] @ ''DATA''] ''hello''
      = (Some ''smtp: A line must not contain CR or LF'', [])
   \<and> validateLine ''me@example.org'' = None
   \<and> validateRecipients [''a@example.com''] = None
   \<and> (\<exists>rest. snd (SendMail (testServer False False []) ''mx.example.com:25'' None
        ''me@example.org'' [''a@example.com''] ''hello'') = Dial ''mx.example.com:25'' # rest)"
  using SendMail_validates_addresses [of "''me@example.org''"
      "[''a@example.com'', ''b@example.com'' @ [CHR 0x0D, CHR 0x0A] @ ''DATA'']"
      "testServer False False []" "''mx.example.com:25''" None "''hello''"]
    SendMail_validates_addresses [of "''me@example.org''" "[''a@example.com'']"
      "testServer False False []" "''mx.example.com:25''" None "''hello''"]
  by simp

text \<open>
  C1, as the specification states it, does not hold: a recipient that the server rejects
  ends the session. With a server that rejects \<open>bad@example.com\<close> and would accept
  \<open>good@example.com\<close>, SendMail returns the rejection as its error; the second
  recipient is never declared and no message body is sent.
\<close>

theorem SendMail_rcpt_rejection_counterexample:
  "reply (testServer False False [Rcpt ''bad@example.com''])
      [Dial ''mx.example.com:25'', Hello ''client.example.org'', Mail ''me@example.org'',
       Rcpt ''bad@example.com''] (Rcpt ''good@example.com'') = None
   \<and> SendMail (testServer False False [Rcpt ''bad@example.com'']) ''mx.example.com:25'' None
        ''me@example.org'' [''bad@example.com'', ''good@example.com''] ''hello''
      = (Some ''550 rejected'',
         [Dial ''mx.example.com:25'', Hello ''client.example.org'', Mail ''me@example.org'',
          Rcpt ''bad@example.com'', Close])"
  by (simp add: SendMail_eval)

text \<open>
  C1, amended. When the server rejects a recipient in the RCPT step, SendMail stops
  there: it returns that rejection as its error, and the rejected RCPT is the last
  operation of the session; what follows it is only the closing of the connection (no
  further RCPT, no DATA, no QUIT).
\<close>

theorem SendMail_rcpt_rejection_aborts:
  assumes "snd (SendMail env addr a from to msg) = tr1 @ Rcpt r # tr2"
    and "reply env tr1 (Rcpt r) = Some e"
  shows "fst (SendMail env addr a from to msg) = Some e \<and> tr2 = [Close]"
  using SendMail_fail_last [OF assms] by simp

theorem SendMail_rcpt_rejection_aborts_witness:
  "snd (SendMail (testServer True False [Rcpt ''b@example.com'']) ''mx.example.com:25'' None
        ''me@example.org'' [''a@example.com'', ''b@example.com'', ''c@example.com''] ''hello'')
     = [Dial ''mx.example.com:25'', Hello ''client.example.org'',
        StartTLS \<lparr>ServerName = ''mx.example.com'', InsecureSkipVerify = True\<rparr>,
        Mail ''me@example.org'', Rcpt ''a@example.com''] @ Rcpt ''b@example.com'' # [Close]
   \<and> reply (testServer True False [Rcpt ''b@example.com''])
        [Dial ''mx.example.com:25'', Hello ''client.example.org'',
         StartTLS \<lparr>ServerName = ''mx.example.com'', InsecureSkipVerify = True\<rparr>,
         Mail ''me@example.org'', Rcpt ''a@example.com''] (Rcpt ''b@example.com'')
      = Some ''550 rejected''
   \<and> fst (SendMail (testServer True False [Rcpt ''b@example.com'']) ''mx.example.com:25'' None
        ''me@example.org'' [''a@example.com'', ''b@example.com'', ''c@example.com''] ''hello'')
     = Some ''550 rejected''"
proof -
  have log: "snd (SendMail (testServer True False [Rcpt ''b@example.com''])
        ''mx.example.com:25'' None ''me@example.org''
        [''a@example.com'', ''b@example.com'', ''c@example.com''] ''hello'')
     = [Dial ''mx.example.com:25'', Hello ''client.example.org'',
        StartTLS \<lparr>ServerName = ''mx.example.com'', InsecureSkipVerify = True\<rparr>,
        Mail ''me@example.org'', Rcpt ''a@example.com''] @ Rcpt ''b@example.com'' # [Close]"
    by (simp add: SendMail_eval)
  have rej: "reply (testServer True False [Rcpt ''b@example.com''])
        [Dial ''mx.example.com:25'', Hello ''client.example.org'',
         StartTLS \<lparr>ServerName = ''mx.example.com'', InsecureSkipVerify = True\<rparr>,
         Mail ''me@example.org'', Rcpt ''a@example.com''] (Rcpt ''b@example.com'')
      = Some ''550 rejected''"
    by (simp add: testServer_def)
  from SendMail_rcpt_rejection_aborts [OF log rej] log rej show ?thesis by simp
qed

text \<open>
  C6. For addresses that pass validation, SendMail is the run of the protocol steps in
  their fixed order (connect, greeting, upgrade, authentication, sender, one step per
  recipient in the order of the list, body, termination) that stops at the first step
  returning an error, followed by the closing of the connection when the dial had
  succeeded. On the wire: the operations made are a non-empty initial part of
  \<open>wireOrder\<close>; a call that returns no error has made all of them; and an operation
  that returns an error is the last one made, its error the one SendMail returns.
\<close>

theorem SendMail_protocol_order:
  assumes "validateLine from = None" and "validateRecipients to = None"
  shows "SendMail env addr a from to msg =
       (case runSteps env addr a from msg (protocolSteps to) [] of
          (r, tr) \<Rightarrow> (r, if reply env [] (Dial addr) = None then tr @ [Close] else tr))
     \<and> (\<exists>made. made \<noteq> [] \<and> prefix made (wireOrder env addr a from to msg)
          \<and> snd (SendMail env addr a from to msg) =
              made @ (if reply env [] (Dial addr) = None then [Close] else []))
     \<and> (fst (SendMail env addr a from to msg) = None \<longrightarrow>
          snd (SendMail env addr a from to msg) = wireOrder env addr a from to msg @ [Close])
     \<and> (\<forall>tr1 c tr2 e.
          snd (SendMail env addr a from to msg) = tr1 @ c # tr2
            \<and> reply env tr1 c = Some e \<and> c \<noteq> Close \<longrightarrow>
          fst (SendMail env addr a from to msg) = Some e
            \<and> tr2 = (if c = Dial addr then [] else [Close]))"
proof (intro conjI)
  show "SendMail env addr a from to msg =
       (case runSteps env addr a from msg (protocolSteps to) [] of
          (r, tr) \<Rightarrow> (r, if reply env [] (Dial addr) = None then tr @ [Close] else tr))"
    by (rule SendMail_as_steps [OF assms])
  show "\<exists>made. made \<noteq> [] \<and> prefix made (wireOrder env addr a from to msg)
          \<and> snd (SendMail env addr a from to msg) =
              made @ (if reply env [] (Dial addr) = None then [Close] else [])"
  proof (cases env addr a "from" to msg rule: SendMail_cases)
    case (invalid e)
    with assms show ?thesis by auto
  next
    case (nodial e)
    have "prefix [Dial addr] (wireOrder env addr a from to msg)"
      by (simp add: wireOrder_def)
    with nodial show ?thesis by (intro exI [of _ "[Dial addr]"]) simp
  next
    case (dialed r xs)
    then show ?thesis by (intro exI [of _ "Dial addr # xs"]) simp
  qed
  show "fst (SendMail env addr a from to msg) = None \<longrightarrow>
          snd (SendMail env addr a from to msg) = wireOrder env addr a from to msg @ [Close]"
  proof (cases env addr a "from" to msg rule: SendMail_cases)
    case (invalid e)
    then show ?thesis by simp
  next
    case (nodial e)
    then show ?thesis by simp
  next
    case (dialed r xs)
    then show ?thesis by auto
  qed
  show "\<forall>tr1 c tr2 e.
          snd (SendMail env addr a from to msg) = tr1 @ c # tr2
            \<and> reply env tr1 c = Some e \<and> c \<noteq> Close \<longrightarrow>
          fst (SendMail env addr a from to msg) = Some e
            \<and> tr2 = (if c = Dial addr then [] else [Close])"
    using SendMail_fail_last [of env addr a "from" to msg] by blast
qed

theorem SendMail_protocol_order_witness:
  "validateLine ''me@example.org'' = None
   \<and> validateRecipients [''a@example.com'', ''b@example.com''] = None
   \<and> SendMail (testServer True True [Data]) ''mx.example.com:25'' (Some ''secret'')
        ''me@example.org'' [''a@example.com'', ''b@example.com''] ''hello''
      = (Some ''550 rejected'',
         [Dial ''mx.example.com:25'', Hello ''client.example.org'',
          StartTLS \<lparr>ServerName = ''mx.example.com'', InsecureSkipVerify = True\<rparr>,
          Auth ''secret'', Mail ''me@example.org'', Rcpt ''a@example.com'',
          Rcpt ''b@example.com'', Data, Close])"
  using SendMail_protocol_order [of "''me@example.org''" "[''a@example.com'', ''b@example.com'']"
      "testServer True True [Data]" "''mx.example.com:25''" "Some ''secret''" "''hello''"]
  by (simp add: SendMail_eval)

text \<open>
  C7. When validation fails SendMail makes no network operation at all. When it passes,
  SendMail dials exactly once, as its first operation. If the dial fails there is no
  connection and nothing else happens; if it succeeds, the last operation of the call
  is the closing of the connection, and it is closed once, whatever step returned.
\<close>

theorem SendMail_connection_closed:
  "(validateLine from \<noteq> None \<or> validateRecipients to \<noteq> None \<longrightarrow>
      snd (SendMail env addr a from to msg) = [])
   \<and> (validateLine from = None \<and> validateRecipients to = None \<longrightarrow>
      (\<exists>rest. snd (SendMail env addr a from to msg) = Dial addr # rest
         \<and> (\<forall>x. Dial x \<notin> set rest)
         \<and> (case reply env [] (Dial addr) of
              Some e \<Rightarrow> rest = [] \<and> fst (SendMail env addr a from to msg) = Some e
            | None \<Rightarrow> \<exists>mid. rest = mid @ [Close] \<and> Close \<notin> set mid)))"
proof (cases env addr a "from" to msg rule: SendMail_cases)
  case (invalid e)
  then show ?thesis by auto
next
  case (nodial e)
  then show ?thesis by simp
next
  case (dialed r xs)
  have "Close \<notin> set xs"
  proof
    assume "Close \<in> set xs"
    with dialed(5)
    have "Close \<in> (\<Union>s \<in> set (sessionSteps to). stepCalls env addr a from msg s)" ..
    with Close_not_sessionStep show False by fast
  qed
  moreover have "Dial x \<notin> set xs" for x
  proof
    assume "Dial x \<in> set xs"
    with dialed(5)
    have "Dial x \<in> (\<Union>s \<in> set (sessionSteps to). stepCalls env addr a from msg s)" ..
    with Dial_not_sessionStep show False by fast
  qed
  ultimately show ?thesis using dialed(1,2,3,9) by simp
qed

theorem SendMail_connection_closed_witness:
  "validateLine ''me@example.org'' = None
   \<and> validateRecipients [''a@example.com''] = None
   \<and> snd (SendMail (testServer False False [Hello ''client.example.org''])
        ''mx.example.com:25'' None ''me@example.org'' [''a@example.com''] ''hello'')
      = [Dial ''mx.example.com:25'', Hello ''client.example.org'', Close]
   \<and> validateLine (''me@example.org'' @ [CHR 0x0A]) \<noteq> None
   \<and> snd (SendMail (testServer False False []) ''mx.example.com:25'' None
        (''me@example.org'' @ [CHR 0x0A]) [''a@example.com''] ''hello'') = []"
  using SendMail_connection_closed [of "''me@example.org''" "[''a@example.com'']"
      "testServer False False [Hello ''client.example.org'']" "''mx.example.com:25''" None
      "''hello''"]
    SendMail_connection_closed [of "''me@example.org'' @ [CHR 0x0A]" "[''a@example.com'']"
      "testServer False False []" "''mx.example.com:25''" None "''hello''"]
  by (simp add: SendMail_eval)

text \<open>
  C4. Credentials were passed, and the session has come to the authentication step
  with the log \<open>tr\<close> (dial, greeting and the upgrade, if any, succeeded). If the
  server does not advertise AUTH at that point, SendMail returns the error
  "smtp: server doesn't support AUTH" and only closes the connection. If it does and
  the exchange returns an error, SendMail returns that error, and after the AUTH
  operation only closes the connection. In both cases the log holds no MAIL, no RCPT
  and no DATA: nothing is submitted unauthenticated.
\<close>

theorem SendMail_auth_required:
  assumes v1: "validateLine from = None" and v2: "validateRecipients to = None"
    and dial: "reply env [] (Dial addr) = None"
    and hello: "reply env [Dial addr] (Hello (Hostname env)) = None"
    and tls: "upgradeTLS env (SplitHostPort env addr) [Dial addr, Hello (Hostname env)]
        = (None, tr)"
  shows "(\<not> Extension env tr ''AUTH'' \<longrightarrow>
            SendMail env addr (Some au) from to msg
              = (Some ''smtp: server doesn't support AUTH'', tr @ [Close]))
     \<and> (Extension env tr ''AUTH'' \<and> reply env tr (Auth au) = Some e \<longrightarrow>
            SendMail env addr (Some au) from to msg = (Some e, tr @ [Auth au, Close]))
     \<and> (\<forall>x. Mail x \<notin> set tr \<and> Rcpt x \<notin> set tr \<and> Write x \<notin> set tr) \<and> Data \<notin> set tr"
proof -
  let ?rest = "DeclareSender # (map DeclareRecipient to @ [TransferBody, Terminate])"
  have run: "runSteps env addr (Some au) from msg (sessionSteps to) [Dial addr] =
      (case authenticate env (Some au) tr of
         (Some e, tr') \<Rightarrow> (Some e, tr')
       | (None, tr') \<Rightarrow> runSteps env addr (Some au) from msg ?rest tr')"
    using hello tls by (simp add: sessionSteps_unfold exec_def)
  have a: "SendMail env addr (Some au) from to msg
      = (Some ''smtp: server doesn't support AUTH'', tr @ [Close])"
    if "\<not> Extension env tr ''AUTH''"
  proof -
    from that have "authenticate env (Some au) tr
        = (Some ''smtp: server doesn't support AUTH'', tr)"
      by (simp add: authenticate_def)
    with run have "runSteps env addr (Some au) from msg (sessionSteps to) [Dial addr]
        = (Some ''smtp: server doesn't support AUTH'', tr)" by simp
    from SendMail_dialed [OF v1 v2 dial this] show ?thesis .
  qed
  have b: "SendMail env addr (Some au) from to msg = (Some e, tr @ [Auth au, Close])"
    if "Extension env tr ''AUTH''" and "reply env tr (Auth au) = Some e"
  proof -
    from that have "authenticate env (Some au) tr = (Some e, tr @ [Auth au])"
      by (simp add: authenticate_def exec_def)
    with run have "runSteps env addr (Some au) from msg (sessionSteps to) [Dial addr]
        = (Some e, tr @ [Auth au])" by simp
    from SendMail_dialed [OF v1 v2 dial this] show ?thesis by simp
  qed
  from upgradeTLS_log [OF tls]
  have c: "(\<forall>x. Mail x \<notin> set tr \<and> Rcpt x \<notin> set tr \<and> Write x \<notin> set tr) \<and> Data \<notin> set tr"
    by auto
  from a b c show ?thesis by blast
qed

theorem SendMail_auth_required_witness:
  "upgradeTLS (testServer True False [])
        (SplitHostPort (testServer True False []) ''mx.example.com:25'')
        [Dial ''mx.example.com:25'', Hello (Hostname (testServer True False []))]
      = (None, [Dial ''mx.example.com:25'', Hello ''client.example.org'',
                StartTLS \<lparr>ServerName = ''mx.example.com'', InsecureSkipVerify = True\<rparr>])
   \<and> \<not> Extension (testServer True False [])
        [Dial ''mx.example.com:25'', Hello ''client.example.org'',
         StartTLS \<lparr>ServerName = ''mx.example.com'', InsecureSkipVerify = True\<rparr>] ''AUTH''
   \<and> SendMail (testServer True False []) ''mx.example.com:25'' (Some ''secret'')
        ''me@example.org'' [''a@example.com''] ''hello''
      = (Some ''smtp: server doesn't support AUTH'',
         [Dial ''mx.example.com:25'', Hello ''client.example.org'',
          StartTLS \<lparr>ServerName = ''mx.example.com'', InsecureSkipVerify = True\<rparr>, Close])
   \<and> upgradeTLS (testServer False True [Auth ''secret''])
        (SplitHostPort (testServer False True [Auth ''secret'']) ''mx.example.com:25'')
        [Dial ''mx.example.com:25'', Hello (Hostname (testServer False True [Auth ''secret'']))]
      = (None, [Dial ''mx.example.com:25'', Hello ''client.example.org''])
   \<and> Extension (testServer False True [Auth ''secret''])
        [Dial ''mx.example.com:25'', Hello ''client.example.org''] ''AUTH''
   \<and> reply (testServer False True [Auth ''secret''])
        [Dial ''mx.example.com:25'', Hello ''client.example.org''] (Auth ''secret'')
      = Some ''550 rejected''
   \<and> SendMail (testServer False True [Auth ''secret'']) ''mx.example.com:25'' (Some ''secret'')
        ''me@example.org'' [''a@example.com''] ''hello''
      = (Some ''550 rejected'',
         [Dial ''mx.example.com:25'', Hello ''client.example.org'', Auth ''secret'', Close])"
proof -
  let ?S = "testServer True False [] :: string smtp_env"
  let ?T = "testServer False True [Auth ''secret''] :: string smtp_env"
  let ?tr = "[Dial ''mx.example.com:25'', Hello ''client.example.org'',
     StartTLS \<lparr>ServerName = ''mx.example.com'', InsecureSkipVerify = True\<rparr>]"
  let ?tr' = "[Dial ''mx.example.com:25'', Hello ''client.example.org''] :: string smtp_call list"
  have v1: "validateLine ''me@example.org'' = None"
    by (simp add: validateLine_def ContainsAny_def)
  have v2: "validateRecipients [''a@example.com''] = None"
    by (simp add: validateLine_def ContainsAny_def)
  have dial: "reply ?S [] (Dial ''mx.example.com:25'') = None"
    by (simp add: testServer_def)
  have hello: "reply ?S [Dial ''mx.example.com:25''] (Hello (Hostname ?S)) = None"
    by (simp add: testServer_def)
  have tls: "upgradeTLS ?S (SplitHostPort ?S ''mx.example.com:25'')
      [Dial ''mx.example.com:25'', Hello (Hostname ?S)] = (None, ?tr)"
    by (simp add: testServer_def upgradeTLS_def exec_def)
  have noauth: "\<not> Extension ?S ?tr ''AUTH''"
    by (simp add: testServer_def)
  from SendMail_auth_required [OF v1 v2 dial hello tls, of "''secret''" "''hello''"] noauth
  have first: "SendMail ?S ''mx.example.com:25'' (Some ''secret'') ''me@example.org''
      [''a@example.com''] ''hello'' = (Some ''smtp: server doesn't support AUTH'', ?tr @ [Close])"
    by blast
  have dial': "reply ?T [] (Dial ''mx.example.com:25'') = None"
    by (simp add: testServer_def)
  have hello': "reply ?T [Dial ''mx.example.com:25''] (Hello (Hostname ?T)) = None"
    by (simp add: testServer_def)
  have tls': "upgradeTLS ?T (SplitHostPort ?T ''mx.example.com:25'')
      [Dial ''mx.example.com:25'', Hello (Hostname ?T)] = (None, ?tr')"
    by (simp add: testServer_def upgradeTLS_def exec_def)
  have auth: "Extension ?T ?tr' ''AUTH''"
    by (simp add: testServer_def)
  have rej: "reply ?T ?tr' (Auth ''secret'') = Some ''550 rejected''"
    by (simp add: testServer_def)
  from SendMail_auth_required [OF v1 v2 dial' hello' tls', of "''secret''" "''hello''"
      "''550 rejected''"] auth rej
  have second: "SendMail ?T ''mx.example.com:25'' (Some ''secret'') ''me@example.org''
      [''a@example.com''] ''hello'' = (Some ''550 rejected'', ?tr' @ [Auth ''secret'', Close])"
    by blast
  from first second tls noauth tls' auth rej show ?thesis by simp
qed

text \<open>
  C5. A STARTTLS operation, when SendMail makes one, is the third operation of the
  call, after the dial and the greeting only, hence before any AUTH, MAIL, RCPT or
  DATA; the server advertised STARTTLS after the greeting; and the TLS configuration
  has \<open>InsecureSkipVerify\<close> set (the certificate is not verified) with the host part
  of the address as server name. When dial and greeting succeeded: if the server
  advertises STARTTLS the upgrade is the next operation; if it does not, no STARTTLS is
  made and the session goes on in the clear with the next step, the authentication
  (or its capability error) when credentials were passed and MAIL otherwise.
\<close>

theorem SendMail_starttls_first:
  "(StartTLS cfg \<in> set (snd (SendMail env addr a from to msg)) \<longrightarrow>
      cfg = \<lparr>ServerName = SplitHostPort env addr, InsecureSkipVerify = True\<rparr>
      \<and> Extension env [Dial addr, Hello (Hostname env)] ''STARTTLS''
      \<and> (\<exists>rest. snd (SendMail env addr a from to msg)
            = Dial addr # Hello (Hostname env) # StartTLS cfg # rest))
   \<and> (validateLine from = None \<and> validateRecipients to = None
        \<and> reply env [] (Dial addr) = None
        \<and> reply env [Dial addr] (Hello (Hostname env)) = None \<longrightarrow>
      (if Extension env [Dial addr, Hello (Hostname env)] ''STARTTLS''
       then \<exists>rest. snd (SendMail env addr a from to msg)
            = Dial addr # Hello (Hostname env)
              # StartTLS \<lparr>ServerName = SplitHostPort env addr, InsecureSkipVerify = True\<rparr>
              # rest
       else (case a of
               None \<Rightarrow> \<exists>rest. snd (SendMail env addr a from to msg)
                    = Dial addr # Hello (Hostname env) # Mail from # rest
             | Some au \<Rightarrow>
                 if Extension env [Dial addr, Hello (Hostname env)] ''AUTH''
                 then \<exists>rest. snd (SendMail env addr a from to msg)
                    = Dial addr # Hello (Hostname env) # Auth au # rest
                 else SendMail env addr a from to msg
                    = (Some ''smtp: server doesn't support AUTH'',
                       [Dial addr, Hello (Hostname env), Close]))))"
proof -
  have first: "cfg = \<lparr>ServerName = SplitHostPort env addr, InsecureSkipVerify = True\<rparr>
      \<and> Extension env [Dial addr, Hello (Hostname env)] ''STARTTLS''
      \<and> (\<exists>rest. snd (SendMail env addr a from to msg)
            = Dial addr # Hello (Hostname env) # StartTLS cfg # rest)"
    if tls: "StartTLS cfg \<in> set (snd (SendMail env addr a from to msg))"
  proof (cases env addr a "from" to msg rule: SendMail_cases)
    case (invalid e)
    with tls show ?thesis by simp
  next
    case (nodial e)
    with tls show ?thesis by simp
  next
    case (dialed r xs)
    with tls have "StartTLS cfg \<in> set (Dial addr # xs)" by simp
    from StartTLS_in_wireOrder [OF dialed(7) this] dialed(9) show ?thesis by auto
  qed
  let ?tr1 = "[Dial addr, Hello (Hostname env)]"
  let ?rest = "map DeclareRecipient to @ [TransferBody, Terminate]"
  have second: "if Extension env ?tr1 ''STARTTLS''
       then \<exists>rest. snd (SendMail env addr a from to msg)
            = Dial addr # Hello (Hostname env)
              # StartTLS \<lparr>ServerName = SplitHostPort env addr, InsecureSkipVerify = True\<rparr>
              # rest
       else (case a of
               None \<Rightarrow> \<exists>rest. snd (SendMail env addr a from to msg)
                    = Dial addr # Hello (Hostname env) # Mail from # rest
             | Some au \<Rightarrow>
                 if Extension env ?tr1 ''AUTH''
                 then \<exists>rest. snd (SendMail env addr a from to msg)
                    = Dial addr # Hello (Hostname env) # Auth au # rest
                 else SendMail env addr a from to msg
                    = (Some ''smtp: server doesn't support AUTH'',
                       [Dial addr, Hello (Hostname env), Close]))"
    if h: "validateLine from = None \<and> validateRecipients to = None
        \<and> reply env [] (Dial addr) = None
        \<and> reply env [Dial addr] (Hello (Hostname env)) = None"
  proof -
  obtain r tr where run: "runSteps env addr a from msg (sessionSteps to) [Dial addr] = (r, tr)"
    by (cases "runSteps env addr a from msg (sessionSteps to) [Dial addr]")
  from h have sm: "SendMail env addr a from to msg = (r, tr @ [Close])"
    using SendMail_dialed [OF _ _ _ run] by blast
  from h run have run1: "runSteps env addr a from msg
      (Upgrade # Authenticate # DeclareSender # ?rest) ?tr1 = (r, tr)"
    by (simp add: sessionSteps_unfold exec_def)
  show ?thesis
  proof (cases "Extension env ?tr1 ''STARTTLS''")
    case True
    from run1 obtain xs
      where "tr = snd (perform env addr a from msg Upgrade ?tr1) @ xs"
      by (rule runSteps_Cons_logE)
    with True have "tr = ?tr1
        @ [StartTLS \<lparr>ServerName = SplitHostPort env addr, InsecureSkipVerify = True\<rparr>] @ xs"
      by (simp add: upgradeTLS_def exec_def)
    with sm True show ?thesis by simp
  next
    case False
    with run1 have run2: "runSteps env addr a from msg
        (Authenticate # DeclareSender # ?rest) ?tr1 = (r, tr)"
      by (simp add: upgradeTLS_def)
    show ?thesis
    proof (cases a)
      case None
      with run2 have "runSteps env addr a from msg (DeclareSender # ?rest) ?tr1 = (r, tr)"
        by (simp add: authenticate_def)
      then obtain xs
        where "tr = snd (perform env addr a from msg DeclareSender ?tr1) @ xs"
        by (rule runSteps_Cons_logE)
      then have "tr = ?tr1 @ [Mail from] @ xs" by (simp add: exec_def)
      with sm False None show ?thesis by simp
    next
      case (Some au)
      show ?thesis
      proof (cases "Extension env ?tr1 ''AUTH''")
        case True
        from run2 obtain xs
          where "tr = snd (perform env addr a from msg Authenticate ?tr1) @ xs"
          by (rule runSteps_Cons_logE)
        with Some True have "tr = ?tr1 @ [Auth au] @ xs"
          by (simp add: authenticate_def exec_def)
        with sm False Some True show ?thesis by simp
      next
        case noauth: False
        with run2 Some have "r = Some ''smtp: server doesn't support AUTH''" "tr = ?tr1"
          by (simp_all add: authenticate_def)
        with sm False Some noauth show ?thesis by simp
      qed
    qed
  qed
  qed
  show ?thesis
    by (rule conjI; rule impI; (rule first | rule second); assumption)
qed

theorem SendMail_starttls_first_witness:
  "validateLine ''me@example.org'' = None
   \<and> validateRecipients [''a@example.com''] = None
   \<and> reply (testServer True False []) [] (Dial ''mx.example.com:25'') = None
   \<and> reply (testServer True False []) [Dial ''mx.example.com:25'']
        (Hello ''client.example.org'') = None
   \<and> Extension (testServer True False [])
        [Dial ''mx.example.com:25'', Hello ''client.example.org''] ''STARTTLS''
   \<and> (\<exists>rest. snd (SendMail (testServer True False []) ''mx.example.com:25'' None
        ''me@example.org'' [''a@example.com''] ''hello'')
      = Dial ''mx.example.com:25'' # Hello ''client.example.org''
        # StartTLS \<lparr>ServerName = ''mx.example.com'', InsecureSkipVerify = True\<rparr> # rest)
   \<and> \<not> Extension (testServer False False [])
        [Dial ''mx.example.com:25'', Hello ''client.example.org''] ''STARTTLS''
   \<and> (\<exists>rest. snd (SendMail (testServer False False []) ''mx.example.com:25'' None
        ''me@example.org'' [''a@example.com''] ''hello'')
      = Dial ''mx.example.com:25'' # Hello ''client.example.org''
        # Mail ''me@example.org'' # rest)"
  using SendMail_starttls_first [of
      "\<lparr>ServerName = ''mx.example.com'', InsecureSkipVerify = True\<rparr>"
      "testServer True False []" "''mx.example.com:25''" None "''me@example.org''"
      "[''a@example.com'']" "''hello''"]
    SendMail_starttls_first [of
      "\<lparr>ServerName = ''mx.example.com'', InsecureSkipVerify = True\<rparr>"
      "testServer False False []" "''mx.example.com:25''" None "''me@example.org''"
      "[''a@example.com'']" "''hello''"]
  by (simp add: testServer_def validateLine_def ContainsAny_def)

section \<open>The claims about NewEnvelope and Send\<close>

text \<open>
  C8. For every configuration NewEnvelope returns an error or an envelope with at least
  one recipient. When the message was obtained and the recipients resolve to the empty
  list, it returns the error "no recipients listed"; NewEnvelope makes no delivery, the
  error is its return value.
\<close>

theorem NewEnvelope_has_recipient:
  "((\<exists>err. fst (NewEnvelope w config) = Inl err)
      \<or> (\<exists>e. fst (NewEnvelope w config) = Inr e \<and> length (EnvelopeRecipients e) \<ge> 1))
   \<and> (getMessage w config = Inr msg \<and> prepare w config msg = (msg', config')
        \<and> resolveRecipients w config' msg' = Inr [] \<longrightarrow>
      NewEnvelope w config = (Inl ''no recipients listed'', config'))"
proof (rule conjI)
  show "(\<exists>err. fst (NewEnvelope w config) = Inl err)
      \<or> (\<exists>e. fst (NewEnvelope w config) = Inr e \<and> length (EnvelopeRecipients e) \<ge> 1)"
  proof (cases "getMessage w config")
    case (Inl err)
    then show ?thesis by (simp add: NewEnvelope_def)
  next
    case (Inr m)
    obtain m' c' where p: "prepare w config m = (m', c')" by (cases "prepare w config m")
    show ?thesis
    proof (cases "resolveRecipients w c' m'")
      case (Inl err)
      with Inr p show ?thesis by (simp add: NewEnvelope_def)
    next
      case rs: (Inr recipients)
      with Inr p show ?thesis by (cases recipients) (simp_all add: NewEnvelope_def)
    qed
  qed
  show "getMessage w config = Inr msg \<and> prepare w config msg = (msg', config')
        \<and> resolveRecipients w config' msg' = Inr [] \<longrightarrow>
      NewEnvelope w config = (Inl ''no recipients listed'', config')"
    by (simp add: NewEnvelope_def)
qed

theorem NewEnvelope_has_recipient_witness:
  "(\<exists>e. fst (NewEnvelope testMail
        \<lparr>Sender = ''me@example.org'', Recipients = [''a@example.com'', ''b@example.com''],
         Subject = '''', Body = ''hello'', PortSMTP = ''''\<rparr>) = Inr e
      \<and> EnvelopeRecipients e = [''a@example.com'', ''b@example.com'']
      \<and> length (EnvelopeRecipients e) \<ge> 1)
   \<and> resolveRecipients testMail
        (snd (prepare testMail
           \<lparr>Sender = ''me@example.org'', Recipients = [''nobody''],
            Subject = '''', Body = ''hello'', PortSMTP = ''''\<rparr>
           \<lparr>Header = [''From'' \<mapsto> [''me@example.org''], ''To'' \<mapsto> [''nobody'']],
            MessageBody = ''hello''\<rparr>))
        (fst (prepare testMail
           \<lparr>Sender = ''me@example.org'', Recipients = [''nobody''],
            Subject = '''', Body = ''hello'', PortSMTP = ''''\<rparr>
           \<lparr>Header = [''From'' \<mapsto> [''me@example.org''], ''To'' \<mapsto> [''nobody'']],
            MessageBody = ''hello''\<rparr>)) = Inr []
   \<and> fst (NewEnvelope testMail
        \<lparr>Sender = ''me@example.org'', Recipients = [''nobody''],
         Subject = '''', Body = ''hello'', PortSMTP = ''''\<rparr>) = Inl ''no recipients listed''"
proof -
  let ?c1 = "\<lparr>Sender = ''me@example.org'', Recipients = [''a@example.com'', ''b@example.com''],
         Subject = '''', Body = ''hello'', PortSMTP = ''''\<rparr>"
  let ?c2 = "\<lparr>Sender = ''me@example.org'', Recipients = [''nobody''],
         Subject = '''', Body = ''hello'', PortSMTP = ''''\<rparr>"
  let ?m2 = "\<lparr>Header = [''From'' \<mapsto> [''me@example.org''], ''To'' \<mapsto> [''nobody'']],
            MessageBody = ''hello''\<rparr>"
  have ok: "\<exists>e. fst (NewEnvelope testMail ?c1) = Inr e
      \<and> EnvelopeRecipients e = [''a@example.com'', ''b@example.com'']"
    by (simp add: NewEnvelope_eval)
  with NewEnvelope_has_recipient [of testMail ?c1]
  have first: "\<exists>e. fst (NewEnvelope testMail ?c1) = Inr e
      \<and> EnvelopeRecipients e = [''a@example.com'', ''b@example.com'']
      \<and> length (EnvelopeRecipients e) \<ge> 1"
    by auto
  have g: "getMessage testMail ?c2 = Inr ?m2"
    by (simp add: getMessage_def testMail_def)
  have p: "prepare testMail ?c2 ?m2
      = (fst (prepare testMail ?c2 ?m2), snd (prepare testMail ?c2 ?m2))"
    by simp
  have r: "resolveRecipients testMail (snd (prepare testMail ?c2 ?m2))
      (fst (prepare testMail ?c2 ?m2)) = Inr []"
    by (simp add: NewEnvelope_eval)
  from NewEnvelope_has_recipient [of testMail ?c2 ?m2 "fst (prepare testMail ?c2 ?m2)"
      "snd (prepare testMail ?c2 ?m2)"] g p r
  have "fst (NewEnvelope testMail ?c2) = Inl ''no recipients listed''"
    by simp
  with first r show ?thesis by blast
qed

text \<open>
  C10. When the configuration lists recipients that do not parse as an address list
  (and the message itself was obtained), the parse error is dropped, the recipient list
  stays empty and NewEnvelope returns "no recipients listed", not the parse error.
\<close>

theorem NewEnvelope_discards_parse_error:
  assumes "getMessage w config = Inr msg"
    and "Recipients config \<noteq> []"
    and "ParseAddressList w (Join (Recipients config) '','') = Inl perr"
  shows "fst (NewEnvelope w config) = Inl ''no recipients listed''"
proof -
  obtain msg' config' where p: "prepare w config msg = (msg', config')"
    by (cases "prepare w config msg")
  from prepare_Recipients [OF p] have "Recipients config' = Recipients config" .
  with assms(2,3) have "resolveRecipients w config' msg' = Inr []"
    by (simp add: resolveRecipients_def)
  with assms(1) p show ?thesis by (simp add: NewEnvelope_def)
qed

theorem NewEnvelope_discards_parse_error_witness:
  "getMessage testMail
      \<lparr>Sender = '''', Recipients = [''a@example.com'', ''not an address''],
       Subject = ''hi'', Body = ''hello'', PortSMTP = ''2525''\<rparr>
     = Inr \<lparr>Header = [''From'' \<mapsto> [''''],
                         ''To'' \<mapsto> [''a@example.com,not an address'']],
            MessageBody = ''hello''\<rparr>
   \<and> ParseAddressList testMail (Join [''a@example.com'', ''not an address''] '','')
     = Inl ''mail: no angle-addr''
   \<and> fst (NewEnvelope testMail
        \<lparr>Sender = '''', Recipients = [''a@example.com'', ''not an address''],
         Subject = ''hi'', Body = ''hello'', PortSMTP = ''2525''\<rparr>)
     = Inl ''no recipients listed''"
proof -
  let ?c = "\<lparr>Sender = '''', Recipients = [''a@example.com'', ''not an address''],
       Subject = ''hi'', Body = ''hello'', PortSMTP = ''2525''\<rparr>"
  let ?m = "\<lparr>Header = [''From'' \<mapsto> [''''],
                         ''To'' \<mapsto> [''a@example.com,not an address'']],
            MessageBody = ''hello''\<rparr>"
  have g: "getMessage testMail ?c = Inr ?m"
    by (simp add: getMessage_def testMail_def)
  have n: "Recipients ?c \<noteq> []" by simp
  have e: "ParseAddressList testMail (Join (Recipients ?c) '','') = Inl ''mail: no angle-addr''"
    by (simp add: testMail_def testParse_def)
  from NewEnvelope_discards_parse_error [OF g n e] g e show ?thesis by simp
qed

text \<open>
  C2, as stated, does not hold when the configuration file supplies nothing because it
  cannot be read: the relay host is set in the environment, yet Send does not consult
  it and fails with the error of the read.
\<close>

theorem Send_fails_without_file_counterexample:
  "Getenv (testHost (Inl ''open /etc/go-sendmail.yaml: no such file or directory'')
        \<lparr>RelayHost = '''', RelayLogin = '''', RelayPassword = ''''\<rparr>
        (\<lambda>k. if k = ''SENDMAIL_SMART_HOST'' then ''relay.example.com:25'' else ''''))
      ''SENDMAIL_SMART_HOST'' = ''relay.example.com:25''
   \<and> Send (testHost (Inl ''open /etc/go-sendmail.yaml: no such file or directory'')
        \<lparr>RelayHost = '''', RelayLogin = '''', RelayPassword = ''''\<rparr>
        (\<lambda>k. if k = ''SENDMAIL_SMART_HOST'' then ''relay.example.com:25'' else '''')) ()
      = Inl (''Failed to read config file: ''
             @ ''open /etc/go-sendmail.yaml: no such file or directory'')"
  by (simp add: Send_def testHost_def)

text \<open>
  C2, amended. When the configuration file is read and parsed, each relay setting (host,
  login, password) is the value of the file if that is not empty and the value of its
  environment variable otherwise, and these are the values Send passes on. When the
  file cannot be read or does not parse, Send returns an error and the environment is
  not consulted.
\<close>

theorem Send_relay_precedence:
  "(ReadFile w ''/etc/go-sendmail.yaml'' = Inr data \<and> Unmarshal w data = Inr rc \<longrightarrow>
      (let host = (if RelayHost rc \<noteq> '''' then RelayHost rc
                   else Getenv w ''SENDMAIL_SMART_HOST'');
           login = (if RelayLogin rc \<noteq> '''' then RelayLogin rc
                    else Getenv w ''SENDMAIL_SMART_LOGIN'');
           password = (if RelayPassword rc \<noteq> '''' then RelayPassword rc
                       else Getenv w ''SENDMAIL_SMART_PASSWORD'')
       in resolveRelay w rc
            = \<lparr>RelayHost = host, RelayLogin = login, RelayPassword = password\<rparr>
          \<and> Send w e = Inr (if host \<noteq> '''' then SendSmarthost w e host login password
                              else SendLikeMTA w e)))
   \<and> (ReadFile w ''/etc/go-sendmail.yaml'' = Inl err \<longrightarrow>
        Send w e = Inl (''Failed to read config file: '' @ err))
   \<and> (ReadFile w ''/etc/go-sendmail.yaml'' = Inr data \<and> Unmarshal w data = Inl err \<longrightarrow>
        Send w e = Inl (''Error while parsing config file: '' @ err))"
  by (cases rc) (simp add: Send_def resolveRelay_def Let_def)

theorem Send_relay_precedence_witness:
  "ReadFile (testHost (Inr ''relay_host: file.example.com:587'')
        \<lparr>RelayHost = ''file.example.com:587'', RelayLogin = '''', RelayPassword = ''''\<rparr>
        (\<lambda>k. if k = ''SENDMAIL_SMART_HOST'' then ''env.example.com:25''
             else if k = ''SENDMAIL_SMART_LOGIN'' then ''envuser'' else ''''))
      ''/etc/go-sendmail.yaml'' = Inr ''relay_host: file.example.com:587''
   \<and> Send (testHost (Inr ''relay_host: file.example.com:587'')
        \<lparr>RelayHost = ''file.example.com:587'', RelayLogin = '''', RelayPassword = ''''\<rparr>
        (\<lambda>k. if k = ''SENDMAIL_SMART_HOST'' then ''env.example.com:25''
             else if k = ''SENDMAIL_SMART_LOGIN'' then ''envuser'' else '''')) ()
      = Inr ''smarthost file.example.com:587 envuser ''
   \<and> Send (testHost (Inl ''permission denied'')
        \<lparr>RelayHost = '''', RelayLogin = '''', RelayPassword = ''''\<rparr> (\<lambda>k. '''')) ()
      = Inl ''Failed to read config file: permission denied''"
  using Send_relay_precedence [of
      "testHost (Inr ''relay_host: file.example.com:587'')
        \<lparr>RelayHost = ''file.example.com:587'', RelayLogin = '''', RelayPassword = ''''\<rparr>
        (\<lambda>k. if k = ''SENDMAIL_SMART_HOST'' then ''env.example.com:25''
             else if k = ''SENDMAIL_SMART_LOGIN'' then ''envuser'' else '''')"
      "''relay_host: file.example.com:587''"
      "\<lparr>RelayHost = ''file.example.com:587'', RelayLogin = '''', RelayPassword = ''''\<rparr>"
      "()" "''none''"]
    Send_relay_precedence [of
      "testHost (Inl ''permission denied'')
        \<lparr>RelayHost = '''', RelayLogin = '''', RelayPassword = ''''\<rparr> (\<lambda>k. '''')"
      "''''" "\<lparr>RelayHost = '''', RelayLogin = '''', RelayPassword = ''''\<rparr>"
      "()" "''permission denied''"]
  by (simp add: testHost_def Let_def)




end
